theory Spec2Isabelle
  imports Complex_Main
begin

section \<open>Strings\<close>

text \<open>
  A Python \<open>str\<close> is modelled as a \<open>string\<close>, a list of 8-bit characters read as the
  code points 0 to 255. The three string methods the script uses are \<open>str.strip()\<close>,
  \<open>str.lower()\<close> and \<open>str.split(sep, 1)\<close>, together with the substring test \<open>sep in s\<close>.

  \<open>str.strip()\<close> without argument removes the characters for which \<open>str.isspace\<close> holds
  from both ends; below 256 these are the code points 9 to 13, 28 to 32, 133 and 160.
\<close>

definition is_space :: "char \<Rightarrow> bool" where
  "is_space c = (of_char c \<in> {9, 10, 11, 12, 13, 28, 29, 30, 31, 32, 133, 160 :: nat})"

definition strip :: "string \<Rightarrow> string" where
  "strip s = rev (dropWhile is_space (rev (dropWhile is_space s)))"

text \<open>
  \<open>str.lower()\<close>: below 256 the upper-case letters are \<open>A\<close> to \<open>Z\<close> and the code points
  192 to 222 without 215; each is mapped to the code point 32 above it.
\<close>

definition lower_char :: "char \<Rightarrow> char" where
  "lower_char c = (let n = of_char c :: nat in
     if (65 \<le> n \<and> n \<le> 90) \<or> (192 \<le> n \<and> n \<le> 222 \<and> n \<noteq> 215)
     then char_of (n + 32) else c)"

definition lower :: "string \<Rightarrow> string" where
  "lower s = map lower_char s"

text \<open>\<open>starts_with sep s\<close>: the separator stands at the very beginning of \<open>s\<close>.\<close>

definition starts_with :: "string \<Rightarrow> string \<Rightarrow> bool" where
  "starts_with sep s = (take (length sep) s = sep)"

text \<open>\<open>contains sep s\<close> is Python's \<open>sep in s\<close>.\<close>

fun contains :: "string \<Rightarrow> string \<Rightarrow> bool" where
  "contains sep [] = (sep = [])"
| "contains sep (c # cs) = (starts_with sep (c # cs) \<or> contains sep cs)"

text \<open>
  \<open>split1 sep s\<close> is Python's \<open>s.split(sep, 1)\<close> for a non-empty separator: the list of
  the text before and the text after the leftmost occurrence of \<open>sep\<close>, or the one-element
  list \<open>[s]\<close> when \<open>sep\<close> does not occur. (The script only ever passes non-empty
  separators; Python rejects the empty one.)
\<close>

fun split1 :: "string \<Rightarrow> string \<Rightarrow> string list" where
  "split1 sep [] = [[]]"
| "split1 sep (c # cs) =
     (if starts_with sep (c # cs) then [[], drop (length sep) (c # cs)]
      else (case split1 sep cs of
              [l, r] \<Rightarrow> [c # l, r]
            | _ \<Rightarrow> [c # cs]))"

section \<open>Errors\<close>

text \<open>
  Every way in which a call of the script's four functions ends without a value.
  The parsers raise \<open>ValueError\<close> with one of three messages; \<open>apply_filter\<close> and
  \<open>apply_aggregation\<close> turn a parser's \<open>ValueError\<close> into \<open>sys.exit\<close> with the same
  message and call \<open>sys.exit\<close> themselves with two more. The constructors name the
  raise site:
  \<^item> \<open>MalformedCondition\<close>: the \<open>raise ValueError\<close> at the end of \<open>parse_condition\<close>;
  \<^item> \<open>MalformedAggregation\<close>: the first \<open>raise ValueError\<close> of \<open>parse_aggregation\<close>;
  \<^item> \<open>UnsupportedFunction\<close>: the second \<open>raise ValueError\<close> of \<open>parse_aggregation\<close>;
  \<^item> \<open>UnknownColumn\<close>: the \<open>sys.exit\<close> after \<open>column not in data[0]\<close>;
  \<^item> \<open>NonNumericCell\<close>: the \<open>sys.exit\<close> in the loop of \<open>apply_filter\<close>;
  \<^item> \<open>NonNumericColumn\<close>: the \<open>sys.exit\<close> in the loop of \<open>apply_aggregation\<close>;
  \<^item> \<open>IndexError\<close>: \<open>data[0]\<close> on an empty list;
  \<^item> \<open>KeyError\<close>: \<open>row[column]\<close> on a row without that key;
  \<^item> \<open>ZeroDivisionError\<close>: a division by zero;
  \<^item> \<open>OverflowError\<close>: an \<open>int\<close> too large to be converted to a \<open>float\<close>.
\<close>

datatype error =
    MalformedCondition
  | MalformedAggregation
  | UnsupportedFunction
  | UnknownColumn
  | NonNumericCell
  | NonNumericColumn
  | IndexError
  | KeyError
  | ZeroDivisionError
  | OverflowError

section \<open>The condition parser\<close>

definition operators :: "string list" where
  "operators = [''>='', ''<='', ''>'', ''<'', ''=='', ''='']"

text \<open>
  The \<open>for op in operators\<close> loop of \<open>parse_condition\<close>, as a recursion over the operators
  still to be tried; falling out of the loop raises.
\<close>

fun parse_condition_loop :: "string list \<Rightarrow> string \<Rightarrow> error + (string \<times> string \<times> string)" where
  "parse_condition_loop [] condition_str = Inl MalformedCondition"
| "parse_condition_loop (op # ops) condition_str =
     (if contains op condition_str then
        (let parts = split1 op condition_str in
         if length parts = 2 then
           Inr (strip (parts ! 0), (if op = ''='' then ''=='' else op), strip (parts ! 1))
         else parse_condition_loop ops condition_str)
      else parse_condition_loop ops condition_str)"

definition parse_condition :: "string \<Rightarrow> error + (string \<times> string \<times> string)" where
  "parse_condition condition_str = parse_condition_loop operators condition_str"

section \<open>The aggregation parser\<close>

definition parse_aggregation :: "string \<Rightarrow> error + (string \<times> string)" where
  "parse_aggregation aggregation_str =
     (if \<not> contains ''='' aggregation_str then Inl MalformedAggregation
      else
        (let parts = split1 ''='' aggregation_str;
             func_name = lower (strip (parts ! 0));
             column = strip (parts ! 1)
         in if func_name \<notin> set [''avg'', ''min'', ''max''] then Inl UnsupportedFunction
            else Inr (func_name, column)))"

section \<open>Floating-point values and the built-in \<open>float\<close>\<close>

text \<open>
  A Python \<open>float\<close> is an IEEE 754 binary64 number. A finite float is modelled by the
  rational it denotes, next to the two infinities and NaN; every operation that produces a
  float rounds its exact result with \<open>round64\<close> below, so that only binary64 numbers ever
  occur. The two zeros are one value: they compare equal and take part in the arithmetic
  of the script in the same way.
\<close>

datatype pyfloat = Finite rat | PInf | NInf | NaN

text \<open>
  Rounding to binary64, to nearest with ties to even. \<open>ilog2 x\<close> is the exponent of a
  positive \<open>x\<close>, the integer \<open>e\<close> with \<open>2 ^ e \<le> x < 2 ^ (e + 1)\<close>, read off the bit
  length of \<open>\<lfloor>x\<rfloor>\<close> or of \<open>\<lceil>1 / x\<rceil> - 1\<close>. A number of exponent \<open>e\<close> is rounded to a
  multiple of \<open>2 ^ (e - 52)\<close>, which leaves 53 significant bits; below \<open>2 ^ (- 1022)\<close> the
  spacing stays \<open>2 ^ (- 1074)\<close> (the subnormal numbers, down to zero); a result that
  reaches \<open>2 ^ 1024\<close> is an infinity.
\<close>

definition pow2 :: "int \<Rightarrow> rat" where
  "pow2 k = (if 0 \<le> k then 2 ^ nat k else 1 / 2 ^ nat (- k))"

fun bit_length :: "nat \<Rightarrow> nat" where
  "bit_length n = (if n = 0 then 0 else Suc (bit_length (n div 2)))"

declare bit_length.simps [simp del]

definition ilog2 :: "rat \<Rightarrow> int" where
  "ilog2 x = (if 1 \<le> x then int (bit_length (nat \<lfloor>x\<rfloor>)) - 1
              else - int (bit_length (nat (\<lceil>1 / x\<rceil> - 1))))"

definition round_half_even :: "rat \<Rightarrow> int" where
  "round_half_even q =
     (if q - of_int \<lfloor>q\<rfloor> < 1 / 2 then \<lfloor>q\<rfloor>
      else if 1 / 2 < q - of_int \<lfloor>q\<rfloor> then \<lfloor>q\<rfloor> + 1
      else if even \<lfloor>q\<rfloor> then \<lfloor>q\<rfloor> else \<lfloor>q\<rfloor> + 1)"

definition quantize :: "rat \<Rightarrow> int \<Rightarrow> rat" where
  "quantize a e = of_int (round_half_even (a / pow2 (e - 52))) * pow2 (e - 52)"

definition overflow :: "bool \<Rightarrow> rat \<Rightarrow> pyfloat" where
  "overflow neg y =
     (if pow2 1024 \<le> y then (if neg then NInf else PInf)
      else Finite (if neg then - y else y))"

definition round64 :: "rat \<Rightarrow> pyfloat" where
  "round64 x =
     (if x = 0 then Finite 0
      else overflow (x < 0) (quantize \<bar>x\<bar> (max (ilog2 \<bar>x\<bar>) (- 1022))))"

fun fneg :: "pyfloat \<Rightarrow> pyfloat" where
  "fneg (Finite q) = Finite (- q)"
| "fneg PInf = NInf"
| "fneg NInf = PInf"
| "fneg NaN = NaN"

text \<open>The comparisons \<open><\<close> and \<open>==\<close> of floats: every comparison with NaN is false.\<close>

fun flt :: "pyfloat \<Rightarrow> pyfloat \<Rightarrow> bool" where
  "flt NaN b = False"
| "flt a NaN = False"
| "flt (Finite a) (Finite b) = (a < b)"
| "flt a NInf = False"
| "flt NInf b = True"
| "flt PInf b = False"
| "flt a PInf = True"

fun feq :: "pyfloat \<Rightarrow> pyfloat \<Rightarrow> bool" where
  "feq NaN b = False"
| "feq a NaN = False"
| "feq a b = (a = b)"

definition fgt :: "pyfloat \<Rightarrow> pyfloat \<Rightarrow> bool" where
  "fgt a b = flt b a"

definition fle :: "pyfloat \<Rightarrow> pyfloat \<Rightarrow> bool" where
  "fle a b = (flt a b \<or> feq a b)"

definition fge :: "pyfloat \<Rightarrow> pyfloat \<Rightarrow> bool" where
  "fge a b = fle b a"

text \<open>
  Addition of floats: opposite infinities and NaN give NaN, and the sum of two finite
  floats is rounded.
\<close>

fun fadd :: "pyfloat \<Rightarrow> pyfloat \<Rightarrow> pyfloat" where
  "fadd NaN b = NaN"
| "fadd a NaN = NaN"
| "fadd (Finite a) (Finite b) = round64 (a + b)"
| "fadd PInf NInf = NaN"
| "fadd NInf PInf = NaN"
| "fadd PInf b = PInf"
| "fadd NInf b = NInf"
| "fadd a PInf = PInf"
| "fadd a NInf = NInf"

text \<open>
  \<open>x / n\<close> for a float \<open>x\<close> and a non-negative \<open>int\<close> \<open>n\<close>: Python converts \<open>n\<close> to a
  float, which rounds it and fails when it is too large, raises on a zero divisor, and
  rounds the quotient of two finite floats. An infinity or NaN divided by a positive
  finite float is itself.
\<close>

definition fdiv_int :: "pyfloat \<Rightarrow> nat \<Rightarrow> error + pyfloat" where
  "fdiv_int x n =
     (case round64 (of_nat n) of
        Finite d \<Rightarrow>
          if d = 0 then Inl ZeroDivisionError
          else Inr (case x of Finite q \<Rightarrow> round64 (q / d) | y \<Rightarrow> y)
      | _ \<Rightarrow> Inl OverflowError)"

text \<open>
  \<open>float(s)\<close> for a string \<open>s\<close>, after CPython's \<open>float_from_string\<close>: non-ASCII
  white space (below 256: the code points 133 and 160) counts as a blank and any other
  character from 127 on makes the call fail; ASCII white space (9 to 13 and 32) is removed
  from both ends; every underscore must stand between two digits and is then dropped; what
  is left is an optional sign followed by \<open>inf\<close>, \<open>infinity\<close> or \<open>nan\<close> in any letter case,
  or by a decimal number with digits before or after an optional point and an optional
  exponent. The decimal number is read exactly and then rounded once, as CPython's
  correctly rounded conversion does. \<open>None\<close> is Python's \<open>ValueError\<close>.
\<close>

definition is_digit :: "char \<Rightarrow> bool" where
  "is_digit c = (48 \<le> (of_char c :: nat) \<and> (of_char c :: nat) \<le> 57)"

definition float_space :: "char \<Rightarrow> bool" where
  "float_space c = (of_char c \<in> {9, 10, 11, 12, 13, 32, 133, 160 :: nat})"

definition float_strip :: "string \<Rightarrow> string" where
  "float_strip s = rev (dropWhile float_space (rev (dropWhile float_space s)))"

fun underscores_ok :: "char \<Rightarrow> string \<Rightarrow> bool" where
  "underscores_ok prev [] = (prev \<noteq> CHR ''_'')"
| "underscores_ok prev (c # cs) =
     ((if c = CHR ''_'' then is_digit prev else (prev = CHR ''_'' \<longrightarrow> is_digit c)) \<and>
      underscores_ok c cs)"

definition digits_val :: "string \<Rightarrow> nat" where
  "digits_val ds = foldl (\<lambda>n c. 10 * n + (of_char c - 48)) 0 ds"

definition pow10 :: "int \<Rightarrow> rat" where
  "pow10 k = (if 0 \<le> k then 10 ^ nat k else 1 / 10 ^ nat (- k))"

definition split_digits :: "string \<Rightarrow> string \<times> string" where
  "split_digits s = (takeWhile is_digit s, dropWhile is_digit s)"

definition parse_exponent :: "string \<Rightarrow> int option" where
  "parse_exponent s =
     (let (neg, ds) =
            (case s of
               [] \<Rightarrow> (False, [])
             | c # cs \<Rightarrow> if c = CHR ''-'' then (True, cs)
                         else if c = CHR ''+'' then (False, cs)
                         else (False, s))
      in if ds \<noteq> [] \<and> list_all is_digit ds
         then Some (if neg then - int (digits_val ds) else int (digits_val ds))
         else None)"

definition parse_decimal :: "string \<Rightarrow> rat option" where
  "parse_decimal s =
     (let (ip, r1) = split_digits s;
          (fp, r2) = (case r1 of
                        [] \<Rightarrow> ([], [])
                      | c # cs \<Rightarrow> if c = CHR ''.'' then split_digits cs else ([], r1))
      in if ip = [] \<and> fp = [] then None
         else (case r2 of
                 [] \<Rightarrow> Some (of_nat (digits_val (ip @ fp)) * pow10 (- int (length fp)))
               | c # cs \<Rightarrow>
                   if c = CHR ''e'' \<or> c = CHR ''E'' then
                     (case parse_exponent cs of
                        None \<Rightarrow> None
                      | Some e \<Rightarrow>
                          Some (of_nat (digits_val (ip @ fp)) * pow10 (e - int (length fp))))
                   else None))"

definition parse_unsigned :: "string \<Rightarrow> pyfloat option" where
  "parse_unsigned s =
     (if lower s = ''inf'' \<or> lower s = ''infinity'' then Some PInf
      else if lower s = ''nan'' then Some NaN
      else map_option round64 (parse_decimal s))"

definition py_float :: "string \<Rightarrow> pyfloat option" where
  "py_float s =
     (let t = float_strip s in
      if list_ex (\<lambda>c. 127 \<le> (of_char c :: nat)) t \<or> \<not> underscores_ok (CHR 0x00) t then None
      else
        (case filter (\<lambda>c. c \<noteq> CHR ''_'') t of
           [] \<Rightarrow> None
         | c # cs \<Rightarrow> if c = CHR ''-'' then map_option fneg (parse_unsigned cs)
                     else if c = CHR ''+'' then parse_unsigned cs
                     else parse_unsigned (c # cs)))"

text \<open>
  The built-ins \<open>sum\<close>, \<open>min\<close> and \<open>max\<close> on a list of floats. \<open>sum\<close> starts from the
  \<open>int\<close> 0 and adds the items from left to right, rounding after each addition, as
  CPython does up to version 3.11. From 3.12 on \<open>sum\<close> also carries the rounding errors
  along and adds them at the end; the two agree whenever no addition rounds.
\<close>

definition py_sum :: "pyfloat list \<Rightarrow> pyfloat" where
  "py_sum vs = foldl fadd (Finite 0) vs"

text \<open>
  \<open>min\<close> keeps the first item and replaces it by a later one that is \<open><\<close> it; \<open>max\<close>
  replaces it by a later one that is \<open>>\<close> it. The first item is passed on its own.
\<close>

fun py_min :: "pyfloat \<Rightarrow> pyfloat list \<Rightarrow> pyfloat" where
  "py_min m [] = m"
| "py_min m (x # xs) = py_min (if flt x m then x else m) xs"

fun py_max :: "pyfloat \<Rightarrow> pyfloat list \<Rightarrow> pyfloat" where
  "py_max m [] = m"
| "py_max m (x # xs) = py_max (if fgt x m then x else m) xs"

section \<open>Strings in order\<close>

text \<open>Python's \<open><\<close> on \<open>str\<close>: lexicographic by code point, a proper prefix first.\<close>

fun str_lt :: "string \<Rightarrow> string \<Rightarrow> bool" where
  "str_lt [] [] = False"
| "str_lt [] (y # ys) = True"
| "str_lt (x # xs) [] = False"
| "str_lt (x # xs) (y # ys) =
     ((of_char x :: nat) < of_char y \<or> (x = y \<and> str_lt xs ys))"

definition str_gt :: "string \<Rightarrow> string \<Rightarrow> bool" where
  "str_gt a b = str_lt b a"

definition str_le :: "string \<Rightarrow> string \<Rightarrow> bool" where
  "str_le a b = (str_lt a b \<or> a = b)"

definition str_ge :: "string \<Rightarrow> string \<Rightarrow> bool" where
  "str_ge a b = str_le b a"

section \<open>Rows and the filter\<close>

text \<open>
  A row is a dictionary from column names to cells, both strings; a dataset is the list
  of rows in file order.
\<close>

type_synonym row = "string \<rightharpoonup> string"

text \<open>The comparison value after \<open>float(value_str)\<close> was tried: a float, or the string.\<close>

datatype pyvalue = Num pyfloat | Str string

definition coerce_value :: "string \<Rightarrow> pyvalue" where
  "coerce_value value_str =
     (case py_float value_str of Some v \<Rightarrow> Num v | None \<Rightarrow> Str value_str)"

text \<open>
  The \<open>if\<close>/\<open>elif\<close> chain at the end of the loop body, once for two floats and once for
  two strings: whether the row is appended.
\<close>

definition num_chain :: "string \<Rightarrow> pyfloat \<Rightarrow> pyfloat \<Rightarrow> bool" where
  "num_chain operator cell_value v =
     (if operator = ''>'' \<and> fgt cell_value v then True
      else if operator = ''<'' \<and> flt cell_value v then True
      else if operator = ''>='' \<and> fge cell_value v then True
      else if operator = ''<='' \<and> fle cell_value v then True
      else if operator = ''=='' \<and> feq cell_value v then True
      else False)"

definition str_chain :: "string \<Rightarrow> string \<Rightarrow> string \<Rightarrow> bool" where
  "str_chain operator cell_value v =
     (if operator = ''>'' \<and> str_gt cell_value v then True
      else if operator = ''<'' \<and> str_lt cell_value v then True
      else if operator = ''>='' \<and> str_ge cell_value v then True
      else if operator = ''<='' \<and> str_le cell_value v then True
      else if operator = ''=='' \<and> cell_value = v then True
      else False)"

text \<open>
  The \<open>for row in data\<close> loop of \<open>apply_filter\<close>; \<open>filtered_data\<close> is the list built so
  far. \<open>row[column]\<close> raises on a missing key, and a cell that is no number ends the call
  when the value is a float.
\<close>

fun filter_loop :: "string \<Rightarrow> string \<Rightarrow> pyvalue \<Rightarrow> row list \<Rightarrow> row list \<Rightarrow> error + row list" where
  "filter_loop column operator v [] filtered_data = Inr filtered_data"
| "filter_loop column operator v (row # rows) filtered_data =
     (case row column of
        None \<Rightarrow> Inl KeyError
      | Some cell_value \<Rightarrow>
          (case v of
             Num x \<Rightarrow>
               (case py_float cell_value of
                  None \<Rightarrow> Inl NonNumericCell
                | Some c \<Rightarrow>
                    filter_loop column operator v rows
                      (if num_chain operator c x then filtered_data @ [row] else filtered_data))
           | Str t \<Rightarrow>
               filter_loop column operator v rows
                 (if str_chain operator cell_value t then filtered_data @ [row]
                  else filtered_data)))"

definition apply_filter :: "row list \<Rightarrow> string \<Rightarrow> error + row list" where
  "apply_filter data condition_str =
     (case parse_condition condition_str of
        Inl e \<Rightarrow> Inl e
      | Inr (column, operator, value_str) \<Rightarrow>
          (case data of
             [] \<Rightarrow> Inl IndexError
           | row0 # _ \<Rightarrow>
               if row0 column = None then Inl UnknownColumn
               else filter_loop column operator (coerce_value value_str) data []))"

section \<open>The aggregation\<close>

text \<open>The \<open>for row in data\<close> loop of \<open>apply_aggregation\<close>; \<open>values\<close> is the list so far.\<close>

fun collect_values :: "string \<Rightarrow> row list \<Rightarrow> pyfloat list \<Rightarrow> error + pyfloat list" where
  "collect_values column [] values = Inr values"
| "collect_values column (row # rows) values =
     (case row column of
        None \<Rightarrow> Inl KeyError
      | Some cell \<Rightarrow>
          (case py_float cell of
             None \<Rightarrow> Inl NonNumericColumn
           | Some num_value \<Rightarrow> collect_values column rows (values @ [num_value])))"

definition apply_aggregation :: "row list \<Rightarrow> string \<Rightarrow> error + pyfloat" where
  "apply_aggregation data aggregation_str =
     (case parse_aggregation aggregation_str of
        Inl e \<Rightarrow> Inl e
      | Inr (func_name, column) \<Rightarrow>
          (case data of
             [] \<Rightarrow> Inl IndexError
           | row0 # _ \<Rightarrow>
               if row0 column = None then Inl UnknownColumn
               else
                 (case collect_values column data [] of
                    Inl e \<Rightarrow> Inl e
                  | Inr values \<Rightarrow>
                      (case values of
                         [] \<Rightarrow> Inr (Finite 0)
                       | first # rest \<Rightarrow>
                           if func_name = ''avg'' then fdiv_int (py_sum values) (length values)
                           else if func_name = ''min'' then Inr (py_min first rest)
                           else if func_name = ''max'' then Inr (py_max first rest)
                           else Inr (Finite 0)))))"

section \<open>Notions of the specification\<close>

text \<open>
  A row satisfies a condition when its cell stands in the relation of the operator to the
  comparison value: as numbers when the value is a number (a cell that is no number
  satisfies nothing), as strings otherwise. This is written independently of the loop.
\<close>

definition satisfies :: "string \<Rightarrow> string \<Rightarrow> string \<Rightarrow> row \<Rightarrow> bool" where
  "satisfies column operator value_str row =
     (case row column of
        None \<Rightarrow> False
      | Some cell \<Rightarrow>
          (case py_float value_str of
             Some x \<Rightarrow>
               (case py_float cell of
                  None \<Rightarrow> False
                | Some c \<Rightarrow>
                    (operator = ''>'' \<and> flt x c) \<or>
                    (operator = ''<'' \<and> flt c x) \<or>
                    (operator = ''>='' \<and> (flt x c \<or> feq c x)) \<or>
                    (operator = ''<='' \<and> (flt c x \<or> feq c x)) \<or>
                    (operator = ''=='' \<and> feq c x))
           | None \<Rightarrow>
               (operator = ''>'' \<and> str_lt value_str cell) \<or>
               (operator = ''<'' \<and> str_lt cell value_str) \<or>
               (operator = ''>='' \<and> (str_lt value_str cell \<or> cell = value_str)) \<or>
               (operator = ''<='' \<and> (str_lt cell value_str \<or> cell = value_str)) \<or>
               (operator = ''=='' \<and> cell = value_str)))"

text \<open>The number a cell of the column denotes, for a row whose cell is a number.\<close>

definition cell_number :: "string \<Rightarrow> row \<Rightarrow> pyfloat" where
  "cell_number column row = the (py_float (the (row column)))"






text \<open>
  \<open>trimmed s t\<close>: the string \<open>t\<close> is \<open>s\<close> without the white space at its two ends, that
  is, \<open>s\<close> is \<open>t\<close> between two runs of white space, and \<open>t\<close> neither begins nor ends with
  white space.
\<close>

definition trimmed :: "string \<Rightarrow> string \<Rightarrow> bool" where
  "trimmed s t =
     (\<exists>a b. s = a @ t @ b \<and> list_all is_space a \<and> list_all is_space b \<and>
            (t \<noteq> [] \<longrightarrow> \<not> is_space (hd t) \<and> \<not> is_space (last t)))"



text \<open>The four rows of the test suite's fixture \<open>sample_data\<close>.\<close>

definition iphone :: row where
  "iphone = [''name'' \<mapsto> ''iphone 15 pro'', ''brand'' \<mapsto> ''apple'',
             ''price'' \<mapsto> ''999'', ''rating'' \<mapsto> ''4.9'']"

definition galaxy :: row where
  "galaxy = [''name'' \<mapsto> ''galaxy s23 ultra'', ''brand'' \<mapsto> ''samsung'',
             ''price'' \<mapsto> ''1199'', ''rating'' \<mapsto> ''4.8'']"

definition redmi :: row where
  "redmi = [''name'' \<mapsto> ''redmi note 12'', ''brand'' \<mapsto> ''xiaomi'',
            ''price'' \<mapsto> ''199'', ''rating'' \<mapsto> ''4.6'']"

definition poco :: row where
  "poco = [''name'' \<mapsto> ''poco x5 pro'', ''brand'' \<mapsto> ''xiaomi'',
           ''price'' \<mapsto> ''299'', ''rating'' \<mapsto> ''4.4'']"

definition sample_data :: "row list" where
  "sample_data = [iphone, galaxy, redmi, poco]"

section \<open>Substring search and splitting\<close>

lemma starts_with_iff: "starts_with sep s \<longleftrightarrow> (\<exists>r. s = sep @ r)"
  unfolding starts_with_def
  by (metis append_eq_conv_conj append_take_drop_id)

lemma contains_iff: "contains sep s \<longleftrightarrow> (\<exists>l r. s = l @ sep @ r)"
proof (induction s)
  case Nil
  show ?case by auto
next
  case (Cons c cs)
  show ?case
  proof
    assume "contains sep (c # cs)"
    then consider "starts_with sep (c # cs)" | "contains sep cs" by auto
    then show "\<exists>l r. c # cs = l @ sep @ r"
    proof cases
      case 1
      then obtain r where "c # cs = sep @ r" by (auto simp: starts_with_iff)
      then have "c # cs = [] @ sep @ r" by simp
      then show ?thesis by blast
    next
      case 2
      then obtain l r where "cs = l @ sep @ r" using Cons.IH by blast
      then have "c # cs = (c # l) @ sep @ r" by simp
      then show ?thesis by blast
    qed
  next
    assume "\<exists>l r. c # cs = l @ sep @ r"
    then obtain l r where lr: "c # cs = l @ sep @ r" by blast
    show "contains sep (c # cs)"
    proof (cases l)
      case Nil
      with lr have "starts_with sep (c # cs)" by (auto simp: starts_with_iff)
      then show ?thesis by simp
    next
      case (Cons a l')
      with lr have "cs = l' @ sep @ r" by simp
      then have "contains sep cs" using Cons.IH by blast
      then show ?thesis by simp
    qed
  qed
qed

lemma split1_absent: "\<not> contains sep s \<Longrightarrow> split1 sep s = [s]"
  by (induction s) auto

lemma split1_present:
  assumes "sep \<noteq> []" and "contains sep s"
  shows "\<exists>l r. split1 sep s = [l, r] \<and> s = l @ sep @ r \<and>
           (\<forall>l' r'. s = l' @ sep @ r' \<longrightarrow> length l \<le> length l')"
  using assms(2)
proof (induction s)
  case Nil
  with assms(1) show ?case by simp
next
  case (Cons c cs)
  show ?case
  proof (cases "starts_with sep (c # cs)")
    case True
    then obtain r where r: "c # cs = sep @ r" by (auto simp: starts_with_iff)
    have d: "drop (length sep) (c # cs) = r" unfolding r by simp
    have "split1 sep (c # cs) = [[], drop (length sep) (c # cs)]" using True by simp
    then have s: "split1 sep (c # cs) = [[], r]" unfolding d .
    have e: "c # cs = [] @ sep @ r" using r by simp
    have "length ([]::string) \<le> length l'" for l' :: string by simp
    with s e show ?thesis by blast
  next
    case False
    with Cons.prems have "contains sep cs" by simp
    then obtain l r where lr: "split1 sep cs = [l, r]" "cs = l @ sep @ r"
      "\<forall>l' r'. cs = l' @ sep @ r' \<longrightarrow> length l \<le> length l'"
      using Cons.IH by blast
    have s: "split1 sep (c # cs) = [c # l, r]" using False lr(1) by simp
    have e: "c # cs = (c # l) @ sep @ r" using lr(2) by simp
    have m: "length (c # l) \<le> length l'" if "c # cs = l' @ sep @ r'" for l' r'
    proof (cases l')
      case Nil
      with that have "starts_with sep (c # cs)" by (auto simp: starts_with_iff)
      with False show ?thesis by simp
    next
      case (Cons a l'')
      with that have "cs = l'' @ sep @ r'" by simp
      with lr(3) have "length l \<le> length l''" by blast
      with Cons show ?thesis by simp
    qed
    from s e m show ?thesis by blast
  qed
qed

lemma parse_condition_loop_find:
  assumes "\<forall>op\<in>set ops. op \<noteq> []"
  shows "parse_condition_loop ops s =
    (case find (\<lambda>op. contains op s) ops of
       None \<Rightarrow> Inl MalformedCondition
     | Some op \<Rightarrow> Inr (strip (split1 op s ! 0), (if op = ''='' then ''=='' else op), strip (split1 op s ! 1)))"
  using assms
proof (induction ops)
  case Nil
  show ?case by simp
next
  case (Cons op ops)
  show ?case
  proof (cases "contains op s")
    case True
    moreover have "op \<noteq> []" using Cons.prems by simp
    ultimately obtain l r where "split1 op s = [l, r]" using split1_present by blast
    with True show ?thesis by (simp add: Let_def)
  next
    case False
    with Cons show ?thesis by simp
  qed
qed

lemma operators_nonempty: "\<forall>op\<in>set operators. op \<noteq> []"
  by (simp add: operators_def)

lemma parse_condition_find:
  "parse_condition s =
    (case find (\<lambda>op. contains op s) operators of
       None \<Rightarrow> Inl MalformedCondition
     | Some op \<Rightarrow> Inr (strip (split1 op s ! 0), (if op = ''='' then ''=='' else op), strip (split1 op s ! 1)))"
  unfolding parse_condition_def by (rule parse_condition_loop_find [OF operators_nonempty])

lemma contains_single: "contains [c] s \<longleftrightarrow> c \<in> set s"
  by (induction s) (auto simp: starts_with_def)

lemma split1_first:
  assumes "sep \<noteq> []" and "s = l @ sep @ r"
    and "\<forall>l' r'. s = l' @ sep @ r' \<longrightarrow> length l \<le> length l'"
  shows "split1 sep s = [l, r]"
proof -
  have "contains sep s" using assms(2) contains_iff by blast
  from split1_present [OF assms(1) this] obtain l0 r0 where
    0: "split1 sep s = [l0, r0]" "s = l0 @ sep @ r0"
       "\<forall>l' r'. s = l' @ sep @ r' \<longrightarrow> length l0 \<le> length l'" by blast
  from 0(2) assms(3) have "length l \<le> length l0" by blast
  moreover from assms(2) 0(3) have "length l0 \<le> length l" by blast
  ultimately have "length l0 = length l" by simp
  with 0(2) assms(2) have "l0 = l \<and> r0 = r" by simp
  with 0(1) show ?thesis by simp
qed

lemma split1_single:
  assumes "s = l @ [c] @ r" and "c \<notin> set l"
  shows "split1 [c] s = [l, r]"
proof (rule split1_first)
  show "[c] \<noteq> []" by simp
  show "s = l @ [c] @ r" by (rule assms(1))
  show "\<forall>l' r'. s = l' @ [c] @ r' \<longrightarrow> length l \<le> length l'"
  proof (intro allI impI)
    fix l' r' assume "s = l' @ [c] @ r'"
    with assms(1) have e: "l' @ c # r' = l @ c # r" by simp
    show "length l \<le> length l'"
    proof (rule ccontr)
      assume "\<not> length l \<le> length l'"
      then have "length l' < length l" by simp
      with e have "l ! length l' = c"
        by (metis nth_append nth_append_length)
      with \<open>length l' < length l\<close> have "c \<in> set l" by (metis nth_mem)
      with assms(2) show False by simp
    qed
  qed
qed

section \<open>Trimming\<close>

lemma strip_trimmed: "trimmed s (strip s)"
proof -
  define d where "d = dropWhile is_space s"
  define a where "a = takeWhile is_space s"
  define b where "b = rev (takeWhile is_space (rev d))"
  have t: "strip s = rev (dropWhile is_space (rev d))" by (simp add: strip_def d_def)
  have "strip s @ b = rev (takeWhile is_space (rev d) @ dropWhile is_space (rev d))"
    by (simp only: t b_def rev_append)
  also have "\<dots> = rev (rev d)" by (simp only: takeWhile_dropWhile_id)
  finally have d: "d = strip s @ b" by simp
  have "s = a @ d" by (simp add: a_def d_def)
  with d have s: "s = a @ strip s @ b" by simp
  have sa: "list_all is_space a" by (auto simp: a_def list_all_iff dest: set_takeWhileD)
  have sb: "list_all is_space b" by (auto simp: b_def list_all_iff dest: set_takeWhileD)
  have e: "\<not> is_space (hd (strip s)) \<and> \<not> is_space (last (strip s))" if ne: "strip s \<noteq> []"
  proof
    from ne d have "d \<noteq> []" by auto
    then have "\<not> is_space (hd d)" unfolding d_def by (rule hd_dropWhile)
    moreover from d ne have "hd d = hd (strip s)" by (metis hd_append2)
    ultimately show "\<not> is_space (hd (strip s))" by simp
    from ne have n: "dropWhile is_space (rev d) \<noteq> []" by (simp add: t)
    then have "\<not> is_space (hd (dropWhile is_space (rev d)))" by (rule hd_dropWhile)
    moreover from n have "last (strip s) = hd (dropWhile is_space (rev d))"
      by (simp add: t last_rev)
    ultimately show "\<not> is_space (last (strip s))" by simp
  qed
  from s sa sb e show ?thesis unfolding trimmed_def by blast
qed


section \<open>The condition parser: claims\<close>

text \<open>
  Claim C5. For every expression containing at least one operator token,
  \<open>parse_condition\<close> splits at the first occurrence of the first operator found in the
  priority order \<open>>=\<close>, \<open><=\<close>, \<open>>\<close>, \<open><\<close>, \<open>==\<close>, \<open>=\<close>, trims both parts, turns a bare \<open>=\<close>
  into \<open>==\<close> and returns a triple whose operator is one of \<open>>\<close>, \<open><\<close>, \<open>>=\<close>, \<open><=\<close>, \<open>==\<close>;
  in particular \<open>rating>=4.5\<close> parses to \<open>(rating, >=, 4.5)\<close>. The operator \<open>op\<close> is the
  first of the list that occurs in \<open>s\<close>, and \<open>l\<close> is the shortest text that \<open>op\<close> follows
  in \<open>s\<close>. Trimming is pinned down twice: each returned part is its side of the split
  between two runs of white space, and neither begins nor ends with white space; and the
  expression \<open> price <= 1000 \<close>, with a blank at either end and around the operator, parses
  to \<open>(price, <=, 1000)\<close>.
\<close>

theorem parse_condition_priority_split:
  "((\<exists>op\<in>set [''>='', ''<='', ''>'', ''<'', ''=='', ''='']. contains op s) \<longrightarrow>
     (\<exists>op l r.
        find (\<lambda>op. contains op s) [''>='', ''<='', ''>'', ''<'', ''=='', ''=''] = Some op \<and>
        s = l @ op @ r \<and> (\<forall>l' r'. s = l' @ op @ r' \<longrightarrow> length l \<le> length l') \<and>
        parse_condition s = Inr (strip l, (if op = ''='' then ''=='' else op), strip r) \<and>
        trimmed l (strip l) \<and> trimmed r (strip r) \<and>
        (if op = ''='' then ''=='' else op) \<in> {''>'', ''<'', ''>='', ''<='', ''==''})) \<and>
   parse_condition ''rating>=4.5'' = Inr (''rating'', ''>='', ''4.5'') \<and>
   parse_condition '' price <= 1000 '' = Inr (''price'', ''<='', ''1000'')"
proof (intro conjI impI)
  assume "\<exists>op\<in>set [''>='', ''<='', ''>'', ''<'', ''=='', ''='']. contains op s"
  then have "\<exists>op\<in>set operators. contains op s" by (simp add: operators_def)
  then obtain op where f: "find (\<lambda>op. contains op s) operators = Some op"
    by (cases "find (\<lambda>op. contains op s) operators") (auto simp: find_None_iff)
  then have mem: "op \<in> set operators" and c: "contains op s"
    by (auto simp: find_Some_iff)
  from mem have ne: "op \<noteq> []" using operators_nonempty by blast
  from split1_present [OF ne c] obtain l r where lr: "split1 op s = [l, r]" "s = l @ op @ r"
    "\<forall>l' r'. s = l' @ op @ r' \<longrightarrow> length l \<le> length l'" by blast
  have p: "parse_condition s = Inr (strip l, (if op = ''='' then ''=='' else op), strip r)"
    using f lr(1) by (simp add: parse_condition_find)
  have n: "(if op = ''='' then ''=='' else op) \<in> {''>'', ''<'', ''>='', ''<='', ''==''}"
    using mem by (auto simp: operators_def)
  from f have f': "find (\<lambda>op. contains op s) [''>='', ''<='', ''>'', ''<'', ''=='', ''=''] = Some op"
    by (simp add: operators_def)
  have tl: "trimmed l (strip l)" and tr: "trimmed r (strip r)" by (rule strip_trimmed)+
  from f' lr(2) lr(3) p tl tr n
  show "\<exists>op l r.
        find (\<lambda>op. contains op s) [''>='', ''<='', ''>'', ''<'', ''=='', ''=''] = Some op \<and>
        s = l @ op @ r \<and> (\<forall>l' r'. s = l' @ op @ r' \<longrightarrow> length l \<le> length l') \<and>
        parse_condition s = Inr (strip l, (if op = ''='' then ''=='' else op), strip r) \<and>
        trimmed l (strip l) \<and> trimmed r (strip r) \<and>
        (if op = ''='' then ''=='' else op) \<in> {''>'', ''<'', ''>='', ''<='', ''==''}"
    by blast
next
  show "parse_condition ''rating>=4.5'' = Inr (''rating'', ''>='', ''4.5'')"
    by (simp add: parse_condition_def operators_def starts_with_def strip_def is_space_def)
next
  show "parse_condition '' price <= 1000 '' = Inr (''price'', ''<='', ''1000'')"
    by (simp add: parse_condition_def operators_def starts_with_def strip_def is_space_def)
qed

theorem parse_condition_priority_split_witness:
  "(\<exists>op\<in>set [''>='', ''<='', ''>'', ''<'', ''=='', ''='']. contains op '' price <= 1000 '') \<and>
   (\<exists>op l r.
        find (\<lambda>op. contains op '' price <= 1000 '') [''>='', ''<='', ''>'', ''<'', ''=='', ''='']
          = Some op \<and>
        '' price <= 1000 '' = l @ op @ r \<and>
        (\<forall>l' r'. '' price <= 1000 '' = l' @ op @ r' \<longrightarrow> length l \<le> length l') \<and>
        parse_condition '' price <= 1000 ''
          = Inr (strip l, (if op = ''='' then ''=='' else op), strip r) \<and>
        trimmed l (strip l) \<and> trimmed r (strip r) \<and>
        (if op = ''='' then ''=='' else op) \<in> {''>'', ''<'', ''>='', ''<='', ''==''}) \<and>
   find (\<lambda>op. contains op '' price <= 1000 '') [''>='', ''<='', ''>'', ''<'', ''=='', ''='']
     = Some ''<='' \<and>
   strip '' price '' = ''price'' \<and> strip '' 1000 '' = ''1000'' \<and>
   parse_condition '' price <= 1000 '' = Inr (''price'', ''<='', ''1000'')"
proof -
  have h: "\<exists>op\<in>set [''>='', ''<='', ''>'', ''<'', ''=='', ''='']. contains op '' price <= 1000 ''"
    by (simp add: starts_with_def)
  note t = parse_condition_priority_split [of "'' price <= 1000 ''"]
  note g = t [THEN conjunct1, THEN mp, OF h]
  note e = t [THEN conjunct2, THEN conjunct2]
  have f: "find (\<lambda>op. contains op '' price <= 1000 '') [''>='', ''<='', ''>'', ''<'', ''=='', ''='']
             = Some ''<=''"
    by (simp add: starts_with_def)
  have s: "strip '' price '' = ''price''" "strip '' 1000 '' = ''1000''"
    by (simp_all add: strip_def is_space_def)
  from h g f s e show ?thesis by (intro conjI)
qed

text \<open>
  Claim C4. \<open>parse_condition\<close> fails with \<open>MalformedCondition\<close> when none of the operator
  tokens occurs in the input; and \<open>price>>500\<close> is parsed rather than refused, because \<open>>\<close>
  occurs in it and the string is split at the first \<open>>\<close>.
\<close>

theorem parse_condition_no_operator:
  "((\<forall>op\<in>set [''>='', ''<='', ''>'', ''<'', ''=='', ''='']. \<not> contains op s) \<longrightarrow>
      parse_condition s = Inl MalformedCondition) \<and>
   contains ''>'' ''price>>500'' \<and>
   split1 ''>'' ''price>>500'' = [''price'', ''>500''] \<and>
   parse_condition ''price>>500'' = Inr (''price'', ''>'', ''>500'')"
proof (intro conjI impI)
  assume "\<forall>op\<in>set [''>='', ''<='', ''>'', ''<'', ''=='', ''='']. \<not> contains op s"
  then have "find (\<lambda>op. contains op s) operators = None"
    by (simp add: operators_def)
  then show "parse_condition s = Inl MalformedCondition"
    by (simp add: parse_condition_find)
next
  show "contains ''>'' ''price>>500''" by (simp add: starts_with_def)
next
  show "split1 ''>'' ''price>>500'' = [''price'', ''>500'']" by (simp add: starts_with_def)
next
  show "parse_condition ''price>>500'' = Inr (''price'', ''>'', ''>500'')"
    by (simp add: parse_condition_def operators_def starts_with_def strip_def is_space_def)
qed

theorem parse_condition_no_operator_witness:
  "\<not> (\<exists>op\<in>set [''>='', ''<='', ''>'', ''<'', ''=='', ''='']. contains op ''price'') \<and>
   parse_condition ''price'' = Inl MalformedCondition"
proof -
  have h: "\<forall>op\<in>set [''>='', ''<='', ''>'', ''<'', ''=='', ''='']. \<not> contains op ''price''"
    by (simp add: starts_with_def)
  from h parse_condition_no_operator [of "''price''"] show ?thesis by blast
qed

text \<open>
  Claim C3 says that a condition whose left or right part is empty after trimming, such
  as \<open>price>\<close> or \<open>>500\<close>, is refused with \<open>MalformedCondition\<close>. The parser only tests
  that the split gave two parts, which it always does once the operator occurs; the parts
  may be empty. Both examples of the claim are parsed.
\<close>

theorem parse_condition_empty_part_counterexample:
  "contains ''>'' ''price>'' \<and> split1 ''>'' ''price>'' = [''price'', ''''] \<and> strip '''' = '''' \<and>
   parse_condition ''price>'' = Inr (''price'', ''>'', '''') \<and>
   parse_condition ''price>'' \<noteq> Inl MalformedCondition \<and>
   contains ''>'' ''>500'' \<and> split1 ''>'' ''>500'' = ['''', ''500''] \<and>
   parse_condition ''>500'' = Inr ('''', ''>'', ''500'') \<and>
   parse_condition ''>500'' \<noteq> Inl MalformedCondition"
  by (simp add: parse_condition_def operators_def starts_with_def strip_def is_space_def)

text \<open>
  Claim C3, amended. For every condition string in which an operator token occurs,
  also when splitting at the first occurrence of the operator found first leaves a left or
  right part that is empty after trimming, \<open>parse_condition\<close> does not fail: it returns
  the trimmed parts, the empty one as the empty string, with the normalised operator.
\<close>

theorem parse_condition_empty_part_accepted:
  assumes "find (\<lambda>op. contains op s) [''>='', ''<='', ''>'', ''<'', ''=='', ''=''] = Some op"
    and "split1 op s = [l, r]"
    and "strip l = [] \<or> strip r = []"
  shows "parse_condition s = Inr (strip l, (if op = ''='' then ''=='' else op), strip r) \<and>
         parse_condition s \<noteq> Inl MalformedCondition"
  using assms(1,2) by (simp add: parse_condition_find operators_def)

theorem parse_condition_empty_part_accepted_witness:
  "find (\<lambda>op. contains op ''price>'') [''>='', ''<='', ''>'', ''<'', ''=='', ''=''] = Some ''>'' \<and>
   split1 ''>'' ''price>'' = [''price'', ''''] \<and>
   (strip ''price'' = [] \<or> strip '''' = []) \<and>
   parse_condition ''price>'' = Inr (''price'', ''>'', '''') \<and>
   parse_condition ''price>'' \<noteq> Inl MalformedCondition"
proof -
  have f: "find (\<lambda>op. contains op ''price>'') [''>='', ''<='', ''>'', ''<'', ''=='', ''=''] = Some ''>''"
    by (simp add: starts_with_def)
  have s: "split1 ''>'' ''price>'' = [''price'', '''']" by (simp add: starts_with_def)
  have e: "strip ''price'' = [] \<or> strip '''' = []" by (simp add: strip_def)
  have p: "strip ''price'' = ''price''" by (simp add: strip_def is_space_def)
  from parse_condition_empty_part_accepted [OF f s e] f s e p show ?thesis by simp
qed

section \<open>The aggregation parser: claims\<close>

text \<open>
  Claim C9. \<open>parse_aggregation\<close> fails with \<open>MalformedAggregation\<close> for every input without
  \<open>=\<close>; it fails with \<open>UnsupportedFunction\<close> when the text before the first \<open>=\<close>, trimmed
  and in lower case, is not one of \<open>avg\<close>, \<open>min\<close>, \<open>max\<close>; otherwise it returns that name
  with the trimmed text after the first \<open>=\<close>. In particular \<open>avg=price\<close> gives
  \<open>(avg, price)\<close>, \<open>sum=price\<close> fails with \<open>UnsupportedFunction\<close> and \<open>avg\<close> fails with
  \<open>MalformedAggregation\<close>.
\<close>

theorem parse_aggregation_cases:
  "(\<not> contains ''='' s \<longrightarrow> parse_aggregation s = Inl MalformedAggregation) \<and>
   (\<forall>l r. s = l @ ''='' @ r \<and> \<not> contains ''='' l \<longrightarrow>
      (if lower (strip l) \<in> {''avg'', ''min'', ''max''}
       then parse_aggregation s = Inr (lower (strip l), strip r)
       else parse_aggregation s = Inl UnsupportedFunction)) \<and>
   parse_aggregation ''avg=price'' = Inr (''avg'', ''price'') \<and>
   parse_aggregation ''sum=price'' = Inl UnsupportedFunction \<and>
   parse_aggregation ''avg'' = Inl MalformedAggregation"
proof (intro conjI allI impI)
  assume "\<not> contains ''='' s"
  then show "parse_aggregation s = Inl MalformedAggregation"
    by (simp add: parse_aggregation_def)
next
  fix l r assume a: "s = l @ ''='' @ r \<and> \<not> contains ''='' l"
  then have c: "contains ''='' s" using contains_iff by blast
  from a have "CHR ''='' \<notin> set l" by (simp add: contains_single)
  with a have sp: "split1 ''='' s = [l, r]" using split1_single by blast
  show "if lower (strip l) \<in> {''avg'', ''min'', ''max''}
       then parse_aggregation s = Inr (lower (strip l), strip r)
       else parse_aggregation s = Inl UnsupportedFunction"
    using c sp by (simp add: parse_aggregation_def Let_def)
next
  show "parse_aggregation ''avg=price'' = Inr (''avg'', ''price'')"
    by (simp add: parse_aggregation_def starts_with_def strip_def is_space_def lower_def lower_char_def)
next
  show "parse_aggregation ''sum=price'' = Inl UnsupportedFunction"
    by (simp add: parse_aggregation_def starts_with_def strip_def is_space_def lower_def lower_char_def)
next
  show "parse_aggregation ''avg'' = Inl MalformedAggregation"
    by (simp add: parse_aggregation_def starts_with_def)
qed

theorem parse_aggregation_cases_witness:
  "\<not> contains ''='' ''max'' \<and> parse_aggregation ''max'' = Inl MalformedAggregation \<and>
   '' MIN = rating '' = '' MIN '' @ ''='' @ '' rating '' \<and> \<not> contains ''='' '' MIN '' \<and>
   lower (strip '' MIN '') \<in> {''avg'', ''min'', ''max''} \<and>
   parse_aggregation '' MIN = rating '' = Inr (''min'', ''rating'') \<and>
   ''count=price'' = ''count'' @ ''='' @ ''price'' \<and> \<not> contains ''='' ''count'' \<and>
   lower (strip ''count'') \<notin> {''avg'', ''min'', ''max''} \<and>
   parse_aggregation ''count=price'' = Inl UnsupportedFunction"
proof -
  have a: "\<not> contains ''='' ''max''" by (simp add: starts_with_def)
  have b: "'' MIN = rating '' = '' MIN '' @ ''='' @ '' rating '' \<and> \<not> contains ''='' '' MIN ''"
    by (simp add: starts_with_def)
  have b': "lower (strip '' MIN '') = ''min''" "strip '' rating '' = ''rating''"
    by code_simp+
  have c: "''count=price'' = ''count'' @ ''='' @ ''price'' \<and> \<not> contains ''='' ''count''"
    by (simp add: starts_with_def)
  have c': "lower (strip ''count'') = ''count''"
    by code_simp
  from parse_aggregation_cases [of "''max''"] a
  have 1: "parse_aggregation ''max'' = Inl MalformedAggregation" by blast
  from parse_aggregation_cases [of "'' MIN = rating ''"] b
  have "if lower (strip '' MIN '') \<in> {''avg'', ''min'', ''max''}
       then parse_aggregation '' MIN = rating '' = Inr (lower (strip '' MIN ''), strip '' rating '')
       else parse_aggregation '' MIN = rating '' = Inl UnsupportedFunction" by blast
  then have 2: "parse_aggregation '' MIN = rating '' = Inr (''min'', ''rating'')"
    unfolding b' by simp
  from parse_aggregation_cases [of "''count=price''"] c
  have "if lower (strip ''count'') \<in> {''avg'', ''min'', ''max''}
       then parse_aggregation ''count=price'' = Inr (lower (strip ''count''), strip ''price'')
       else parse_aggregation ''count=price'' = Inl UnsupportedFunction" by blast
  then have 3: "parse_aggregation ''count=price'' = Inl UnsupportedFunction"
    unfolding c' by simp
  from a b c 1 2 3 show ?thesis unfolding b' c' by simp
qed

section \<open>Columns and empty datasets: claims\<close>

text \<open>
  Claim C10. For every non-empty dataset, \<open>apply_filter\<close> and \<open>apply_aggregation\<close> each
  fail with \<open>UnknownColumn\<close> when the column of the parsed condition (of the parsed
  aggregation) is not a key of the first row.
\<close>

theorem unknown_column_fails:
  "(data \<noteq> [] \<and> parse_condition condition_str = Inr (column, operator, value_str) \<and>
      column \<notin> dom (hd data) \<longrightarrow> apply_filter data condition_str = Inl UnknownColumn) \<and>
   (data \<noteq> [] \<and> parse_aggregation aggregation_str = Inr (func_name, agg_column) \<and>
      agg_column \<notin> dom (hd data) \<longrightarrow> apply_aggregation data aggregation_str = Inl UnknownColumn)"
  by (cases data) (auto simp: apply_filter_def apply_aggregation_def)

theorem unknown_column_fails_witness:
  "sample_data \<noteq> [] \<and> parse_condition ''invalid>500'' = Inr (''invalid'', ''>'', ''500'') \<and>
   ''invalid'' \<notin> dom (hd sample_data) \<and>
   apply_filter sample_data ''invalid>500'' = Inl UnknownColumn \<and>
   parse_aggregation ''avg=invalid'' = Inr (''avg'', ''invalid'') \<and>
   apply_aggregation sample_data ''avg=invalid'' = Inl UnknownColumn"
proof -
  have n: "sample_data \<noteq> []" by (simp add: sample_data_def)
  have p: "parse_condition ''invalid>500'' = Inr (''invalid'', ''>'', ''500'')"
    by (simp add: parse_condition_def operators_def starts_with_def strip_def is_space_def)
  have q: "parse_aggregation ''avg=invalid'' = Inr (''avg'', ''invalid'')"
    by (simp add: parse_aggregation_def starts_with_def strip_def is_space_def lower_def
        lower_char_def)
  have d: "''invalid'' \<notin> dom (hd sample_data)"
    by (simp add: sample_data_def iphone_def)
  from unknown_column_fails [of sample_data "''invalid>500''" "''invalid''" "''>''" "''500''"
      "''avg=invalid''" "''avg''" "''invalid''"] n p q d
  show ?thesis by blast
qed

text \<open>
  Claim C1 says that \<open>avg\<close>, \<open>min\<close> and \<open>max\<close> of an empty dataset are \<open>0.0\<close>. The function
  reads \<open>data[0]\<close> for the column check before it reaches the test for an empty list of
  values, so on the empty dataset the call ends in \<open>IndexError\<close>.
\<close>

theorem aggregation_of_empty_dataset:
  "apply_aggregation [] ''avg=price'' = Inl IndexError \<and>
   apply_aggregation [] ''min=price'' = Inl IndexError \<and>
   apply_aggregation [] ''max=price'' = Inl IndexError \<and>
   apply_aggregation [] ''avg=price'' \<noteq> Inr (Finite 0)"
  by (simp add: apply_aggregation_def parse_aggregation_def starts_with_def strip_def
      is_space_def lower_def lower_char_def)

section \<open>The filter loop\<close>

lemma num_chain_iff:
  "num_chain operator c x \<longleftrightarrow>
     (operator = ''>'' \<and> flt x c) \<or> (operator = ''<'' \<and> flt c x) \<or>
     (operator = ''>='' \<and> (flt x c \<or> feq x c)) \<or>
     (operator = ''<='' \<and> (flt c x \<or> feq c x)) \<or>
     (operator = ''=='' \<and> feq c x)"
  by (auto simp: num_chain_def fgt_def fge_def fle_def)

lemma feq_sym: "feq a b = feq b a"
  by (cases a; cases b) auto

lemma str_chain_iff:
  "str_chain operator cell t \<longleftrightarrow>
     (operator = ''>'' \<and> str_lt t cell) \<or> (operator = ''<'' \<and> str_lt cell t) \<or>
     (operator = ''>='' \<and> (str_lt t cell \<or> cell = t)) \<or>
     (operator = ''<='' \<and> (str_lt cell t \<or> cell = t)) \<or>
     (operator = ''=='' \<and> cell = t)"
  by (auto simp: str_chain_def str_gt_def str_ge_def str_le_def)

lemma filter_loop_Num_prefix:
  assumes "\<forall>row\<in>set pre. \<exists>cell. row column = Some cell \<and> py_float cell \<noteq> None"
  shows "filter_loop column operator (Num x) (pre @ rest) acc =
         filter_loop column operator (Num x) rest
           (acc @ filter (\<lambda>row. num_chain operator (cell_number column row) x) pre)"
  using assms
proof (induction pre arbitrary: acc)
  case Nil
  show ?case by simp
next
  case (Cons row pre)
  from Cons.prems obtain cell c where c: "row column = Some cell" "py_float cell = Some c"
    by auto
  from Cons.prems have "\<forall>row\<in>set pre. \<exists>cell. row column = Some cell \<and> py_float cell \<noteq> None"
    by simp
  note IH = Cons.IH [OF this]
  show ?case using c by (simp add: IH cell_number_def)
qed

lemma filter_loop_Str_all:
  assumes "\<forall>row\<in>set rows. row column \<noteq> None"
  shows "filter_loop column operator (Str t) rows acc =
         Inr (acc @ filter (\<lambda>row. str_chain operator (the (row column)) t) rows)"
  using assms
proof (induction rows arbitrary: acc)
  case Nil
  show ?case by simp
next
  case (Cons row rows)
  from Cons.prems obtain cell where c: "row column = Some cell" by auto
  from Cons.prems have "\<forall>row\<in>set rows. row column \<noteq> None" by simp
  note IH = Cons.IH [OF this]
  show ?case using c by (simp add: IH)
qed

lemma filter_loop_satisfies:
  assumes "\<forall>row\<in>set data. \<exists>cell. row column = Some cell \<and>
             (py_float value_str \<noteq> None \<longrightarrow> py_float cell \<noteq> None)"
  shows "filter_loop column operator (coerce_value value_str) data [] =
         Inr (filter (satisfies column operator value_str) data)"
proof (cases "py_float value_str")
  case None
  from assms have a: "\<forall>row\<in>set data. row column \<noteq> None" by auto
  have "filter (\<lambda>row. str_chain operator (the (row column)) value_str) data =
        filter (satisfies column operator value_str) data"
  proof (rule filter_cong [OF refl])
    fix row assume "row \<in> set data"
    with a obtain cell where "row column = Some cell" by auto
    then show "str_chain operator (the (row column)) value_str =
               satisfies column operator value_str row"
      using None by (simp add: satisfies_def str_chain_iff)
  qed
  with None show ?thesis
    by (simp add: coerce_value_def filter_loop_Str_all [OF a])
next
  case (Some x)
  with assms have a: "\<forall>row\<in>set data. \<exists>cell. row column = Some cell \<and> py_float cell \<noteq> None"
    by auto
  have "filter (\<lambda>row. num_chain operator (cell_number column row) x) data =
        filter (satisfies column operator value_str) data"
  proof (rule filter_cong [OF refl])
    fix row assume "row \<in> set data"
    with a obtain cell c where "row column = Some cell" "py_float cell = Some c" by auto
    then show "num_chain operator (cell_number column row) x =
               satisfies column operator value_str row"
      using Some by (auto simp: satisfies_def num_chain_iff cell_number_def feq_sym)
  qed
  moreover have "filter_loop column operator (Num x) (data @ []) [] =
     filter_loop column operator (Num x) []
       ([] @ filter (\<lambda>row. num_chain operator (cell_number column row) x) data)"
    by (rule filter_loop_Num_prefix [OF a])
  ultimately show ?thesis using Some by (simp add: coerce_value_def)
qed

lemma apply_filter_unfold:
  assumes "parse_condition condition_str = Inr (column, operator, value_str)"
    and "row column \<noteq> None"
  shows "apply_filter (row # rows) condition_str =
         filter_loop column operator (coerce_value value_str) (row # rows) []"
  using assms by (simp add: apply_filter_def)

section \<open>Rounding evaluated\<close>

lemma bit_length_0: "bit_length 0 = 0"
  by (simp add: bit_length.simps)

lemma bit_length_1: "bit_length (Suc 0) = Suc 0"
  by (simp add: bit_length.simps [of "Suc 0"] bit_length_0)

lemma bit_length_Bit0: "bit_length (numeral (Num.Bit0 n)) = Suc (bit_length (numeral n))"
  by (subst bit_length.simps) simp

lemma bit_length_Bit1: "bit_length (numeral (Num.Bit1 n)) = Suc (bit_length (numeral n))"
  by (subst bit_length.simps) simp

lemma floor_rat_numeral: "\<lfloor>(numeral a :: rat) / numeral b\<rfloor> = numeral a div numeral b"
  by (metis floor_divide_of_int_eq of_int_numeral)

lemma floor_rat_one: "\<lfloor>(1 :: rat) / numeral b\<rfloor> = 1 div numeral b"
  by (metis floor_divide_of_int_eq of_int_numeral of_int_1)

lemma ceiling_rat_numeral:
  "\<lceil>(numeral a :: rat) / numeral b\<rceil> = - (- numeral a div numeral b)"
  by (metis ceiling_def floor_divide_of_int_eq minus_divide_left of_int_minus of_int_numeral)

lemma ceiling_rat_one: "\<lceil>(1 :: rat) / numeral b\<rceil> = - (- 1 div numeral b)"
  by (metis ceiling_def floor_divide_of_int_eq minus_divide_left of_int_minus of_int_numeral
      of_int_1)

lemmas round64_eval = round64_def overflow_def quantize_def ilog2_def round_half_even_def
  pow2_def bit_length_0 bit_length_1 bit_length_Bit0 bit_length_Bit1
  floor_rat_numeral floor_rat_one ceiling_rat_numeral ceiling_rat_one

lemma round64_0: "round64 0 = Finite 0"
  by (simp add: round64_def)

text \<open>
  Known values: the float nearest to one tenth; a tie that goes down to the even
  neighbour and one that goes up; the largest float and the overflow just above it; the
  smallest subnormal number and the underflow to zero below half of it.
\<close>

lemma round64_examples:
  "round64 (1 / 10) = Finite (3602879701896397 / 36028797018963968)"
  "round64 9007199254740993 = Finite 9007199254740992"
  "round64 9007199254740995 = Finite 9007199254740996"
  "round64 (- 9007199254740993) = Finite (- 9007199254740992)"
  "round64 ((2 ^ 53 - 1) * 2 ^ 971) = Finite ((2 ^ 53 - 1) * 2 ^ 971)"
  "round64 ((2 ^ 54 - 1) * 2 ^ 970) = PInf"
  "round64 (1 / 2 ^ 1074) = Finite (1 / 2 ^ 1074)"
  "round64 (1 / 2 ^ 1075) = Finite 0"
  "round64 (3 / 2 ^ 1075) = Finite (2 / 2 ^ 1074)"
  by (simp_all add: round64_eval)

section \<open>Summation without rounding\<close>



section \<open>Collecting and comparing numbers\<close>

lemma collect_values_prefix:
  assumes "\<forall>row\<in>set pre. \<exists>cell. row column = Some cell \<and> py_float cell \<noteq> None"
  shows "collect_values column (pre @ rest) acc =
         collect_values column rest (acc @ map (cell_number column) pre)"
  using assms
proof (induction pre arbitrary: acc)
  case Nil
  show ?case by simp
next
  case (Cons row pre)
  from Cons.prems obtain cell c where c: "row column = Some cell" "py_float cell = Some c"
    by auto
  from Cons.prems have "\<forall>row\<in>set pre. \<exists>cell. row column = Some cell \<and> py_float cell \<noteq> None"
    by simp
  note IH = Cons.IH [OF this]
  show ?case using c by (simp add: IH cell_number_def)
qed







section \<open>The aggregation as a whole\<close>


section \<open>The fixture evaluated\<close>

lemma sample_cells:
  "iphone ''price'' = Some ''999''" "galaxy ''price'' = Some ''1199''"
  "redmi ''price'' = Some ''199''" "poco ''price'' = Some ''299''"
  by (simp_all add: iphone_def galaxy_def redmi_def poco_def)

lemmas py_float_eval = py_float_def float_strip_def float_space_def is_digit_def
  parse_unsigned_def parse_decimal_def parse_exponent_def split_digits_def digits_val_def
  pow10_def lower_def lower_char_def round64_eval

lemma sample_numbers:
  "py_float ''999'' = Some (Finite 999)" "py_float ''1199'' = Some (Finite 1199)"
  "py_float ''199'' = Some (Finite 199)" "py_float ''299'' = Some (Finite 299)"
  "py_float ''500'' = Some (Finite 500)"
  by (simp_all add: py_float_eval)

lemma sample_parses:
  "parse_condition ''price>500'' = Inr (''price'', ''>'', ''500'')"
  "parse_aggregation ''avg=price'' = Inr (''avg'', ''price'')"
  "parse_aggregation ''max=price'' = Inr (''max'', ''price'')"
  by code_simp+

lemma sample_filter: "apply_filter sample_data ''price>500'' = Inr [iphone, galaxy]"
  by (simp add: apply_filter_def sample_parses sample_data_def sample_cells sample_numbers
      coerce_value_def num_chain_def fgt_def)



lemma apply_filter_hd:
  assumes "parse_condition condition_str = Inr (column, operator, value_str)"
    and "data \<noteq> []" and "hd data column \<noteq> None"
  shows "apply_filter data condition_str =
         filter_loop column operator (coerce_value value_str) data []"
  using assms by (cases data) (simp_all add: apply_filter_def)

lemma apply_aggregation_hd:
  assumes "parse_aggregation aggregation_str = Inr (func_name, column)"
    and "data \<noteq> []" and "hd data column \<noteq> None"
    and "collect_values column data [] = Inl e"
  shows "apply_aggregation data aggregation_str = Inl e"
proof -
  from assms(2) obtain row0 rows where d: "data = row0 # rows" by (cases data) auto
  with assms(3) obtain cell where c: "row0 column = Some cell" by auto
  from assms(4) have v: "collect_values column (row0 # rows) [] = Inl e" unfolding d .
  show ?thesis
    unfolding d by (simp add: apply_aggregation_def assms(1) c v del: collect_values.simps)
qed

lemma hd_prefix_has_column:
  assumes "\<forall>row\<in>set pre. \<exists>cell. row column = Some cell \<and> py_float cell \<noteq> None"
    and "bad column = Some cell"
  shows "hd (pre @ bad # post) column \<noteq> None"
  using assms by (cases pre) auto

section \<open>The filter: claims\<close>

text \<open>
  Claim C6 says that for every non-empty dataset and every condition on a column of the
  dataset \<open>apply_filter\<close> returns the rows that satisfy the condition. When the comparison
  value is a number and a cell of the column is none, the call ends without a dataset.
\<close>

theorem apply_filter_non_numeric_cell_counterexample:
  "parse_condition ''price>500'' = Inr (''price'', ''>'', ''500'') \<and>
   [''price'' \<mapsto> ''abc''] ''price'' = Some ''abc'' \<and>
   py_float ''500'' = Some (Finite 500) \<and> py_float ''abc'' = None \<and>
   apply_filter [[''price'' \<mapsto> ''abc'']] ''price>500'' = Inl NonNumericCell"
  by (simp add: apply_filter_def sample_parses coerce_value_def sample_numbers py_float_eval)

text \<open>
  Claim C6, amended. For every non-empty dataset whose rows all have the condition's
  column, with a number in every cell of that column when the comparison value is a
  number, \<open>apply_filter\<close> returns exactly the rows that satisfy the condition, in their
  original order; consequently it returns the dataset itself when every row satisfies the
  condition. Over the prices 999, 1199, 199, 299 the condition \<open>price>500\<close> gives the rows
  with 999 and 1199.
\<close>

theorem apply_filter_returns_satisfying_rows:
  "(data \<noteq> [] \<and> parse_condition condition_str = Inr (column, operator, value_str) \<and>
    (\<forall>row\<in>set data. \<exists>cell. row column = Some cell \<and>
        (py_float value_str \<noteq> None \<longrightarrow> py_float cell \<noteq> None)) \<longrightarrow>
      apply_filter data condition_str = Inr (filter (satisfies column operator value_str) data) \<and>
      ((\<forall>row\<in>set data. satisfies column operator value_str row) \<longrightarrow>
         apply_filter data condition_str = Inr data)) \<and>
   apply_filter sample_data ''price>500'' = Inr [iphone, galaxy]"
proof (intro conjI impI)
  assume a: "data \<noteq> [] \<and> parse_condition condition_str = Inr (column, operator, value_str) \<and>
    (\<forall>row\<in>set data. \<exists>cell. row column = Some cell \<and>
        (py_float value_str \<noteq> None \<longrightarrow> py_float cell \<noteq> None))"
  then obtain row0 rows where d: "data = row0 # rows" by (cases data) auto
  with a have "row0 column \<noteq> None" by auto
  with a d have "apply_filter data condition_str =
      filter_loop column operator (coerce_value value_str) data []"
    by (simp add: apply_filter_unfold)
  also from a have "\<dots> = Inr (filter (satisfies column operator value_str) data)"
    by (simp add: filter_loop_satisfies)
  finally show r: "apply_filter data condition_str =
      Inr (filter (satisfies column operator value_str) data)" .
  assume "\<forall>row\<in>set data. satisfies column operator value_str row"
  then have "filter (satisfies column operator value_str) data = data" by simp
  with r show "apply_filter data condition_str = Inr data" by simp
next
  show "apply_filter sample_data ''price>500'' = Inr [iphone, galaxy]"
    by (rule sample_filter)
qed

theorem apply_filter_returns_satisfying_rows_witness:
  "sample_data \<noteq> [] \<and> parse_condition ''price>500'' = Inr (''price'', ''>'', ''500'') \<and>
   list_all (\<lambda>row. row ''price'' \<noteq> None \<and> py_float (the (row ''price'')) \<noteq> None) sample_data \<and>
   filter (satisfies ''price'' ''>'' ''500'') sample_data = [iphone, galaxy] \<and>
   apply_filter sample_data ''price>500'' = Inr [iphone, galaxy] \<and>
   list_all (satisfies ''price'' ''>'' ''100'') sample_data \<and>
   apply_filter sample_data ''price>100'' = Inr sample_data"
proof -
  have n: "sample_data \<noteq> []" by (simp add: sample_data_def)
  have p: "parse_condition ''price>500'' = Inr (''price'', ''>'', ''500'')"
    by (rule sample_parses)
  have p': "parse_condition ''price>100'' = Inr (''price'', ''>'', ''100'')"
    by (simp add: parse_condition_def operators_def starts_with_def strip_def is_space_def)
  have v: "py_float ''100'' = Some (Finite 100)" by (simp add: py_float_eval)
  have c: "list_all (\<lambda>row. row ''price'' \<noteq> None \<and> py_float (the (row ''price'')) \<noteq> None)
             sample_data"
    by (simp add: sample_data_def sample_cells sample_numbers)
  then have h: "\<forall>row\<in>set sample_data. \<exists>cell. row ''price'' = Some cell \<and>
        (py_float v \<noteq> None \<longrightarrow> py_float cell \<noteq> None)" for v
    by (auto simp: list_all_iff)
  have f: "filter (satisfies ''price'' ''>'' ''500'') sample_data = [iphone, galaxy]"
    by (simp add: sample_data_def satisfies_def sample_cells sample_numbers)
  have s: "list_all (satisfies ''price'' ''>'' ''100'') sample_data"
    by (simp add: sample_data_def satisfies_def sample_cells sample_numbers v)
  then have s': "\<forall>row\<in>set sample_data. satisfies ''price'' ''>'' ''100'' row"
    by (simp add: list_all_iff)
  from apply_filter_returns_satisfying_rows
         [of sample_data "''price>500''" "''price''" "''>''" "''500''"] n p h f
  have 1: "apply_filter sample_data ''price>500'' = Inr [iphone, galaxy]" by simp
  from apply_filter_returns_satisfying_rows
         [of sample_data "''price>100''" "''price''" "''>''" "''100''"] n p' h s'
  have 2: "apply_filter sample_data ''price>100'' = Inr sample_data" by blast
  from n p c f 1 s 2 show ?thesis by blast
qed

text \<open>
  Claim C2 says that \<open>>\<close>, \<open><\<close>, \<open>>=\<close> and \<open><=\<close> with a comparison value that is no number
  match no row. Python orders strings, so the cell and the value are compared as strings:
  the cell \<open>b\<close> is greater than the value \<open>a\<close> and the row is kept.
\<close>

theorem apply_filter_string_ordering_counterexample:
  "parse_condition ''name>a'' = Inr (''name'', ''>'', ''a'') \<and>
   py_float ''a'' = None \<and>
   [''name'' \<mapsto> ''b''] ''name'' = Some ''b'' \<and> str_gt ''b'' ''a'' \<and>
   apply_filter [[''name'' \<mapsto> ''b'']] ''name>a'' = Inr [[''name'' \<mapsto> ''b'']] \<and>
   apply_filter [[''name'' \<mapsto> ''b'']] ''name>a'' \<noteq> Inr []"
proof -
  have p: "parse_condition ''name>a'' = Inr (''name'', ''>'', ''a'')"
    by (simp add: parse_condition_def operators_def starts_with_def strip_def is_space_def)
  have v: "py_float ''a'' = None" by (simp add: py_float_eval)
  have g: "str_gt ''b'' ''a''" by (simp add: str_gt_def)
  have r: "apply_filter [[''name'' \<mapsto> ''b'']] ''name>a'' = Inr [[''name'' \<mapsto> ''b'']]"
    by (simp add: apply_filter_def p coerce_value_def v str_chain_def g)
  from p v g r show ?thesis by simp
qed

text \<open>
  Claim C2, amended. For every non-empty dataset whose rows all have the condition's
  column and every condition whose comparison value is no number, \<open>apply_filter\<close> with
  \<open>>\<close>, \<open><\<close>, \<open>>=\<close> or \<open><=\<close> raises no error and returns, in their original order, the rows
  whose cell stands in that relation to the value in the order of strings (by code point,
  a proper prefix first).
\<close>

theorem apply_filter_string_ordering:
  assumes "data \<noteq> []"
    and "parse_condition condition_str = Inr (column, operator, value_str)"
    and "operator \<in> {''>'', ''<'', ''>='', ''<=''}"
    and "py_float value_str = None"
    and "\<forall>row\<in>set data. row column \<noteq> None"
  shows "apply_filter data condition_str =
     Inr (filter (\<lambda>row.
            (operator = ''>'' \<and> str_lt value_str (the (row column))) \<or>
            (operator = ''<'' \<and> str_lt (the (row column)) value_str) \<or>
            (operator = ''>='' \<and> (str_lt value_str (the (row column)) \<or> the (row column) = value_str)) \<or>
            (operator = ''<='' \<and> (str_lt (the (row column)) value_str \<or> the (row column) = value_str)))
          data)"
proof -
  from assms(1) obtain row0 rows where d: "data = row0 # rows" by (cases data) auto
  with assms(5) have "row0 column \<noteq> None" by simp
  with assms(2) d have "apply_filter data condition_str =
      filter_loop column operator (coerce_value value_str) data []"
    by (simp add: apply_filter_unfold)
  also have "\<dots> = Inr (filter (\<lambda>row. str_chain operator (the (row column)) value_str) data)"
    using assms(4) by (simp add: coerce_value_def filter_loop_Str_all [OF assms(5)])
  also have "(\<lambda>row. str_chain operator (the (row column)) value_str) =
     (\<lambda>row.
            (operator = ''>'' \<and> str_lt value_str (the (row column))) \<or>
            (operator = ''<'' \<and> str_lt (the (row column)) value_str) \<or>
            (operator = ''>='' \<and> (str_lt value_str (the (row column)) \<or> the (row column) = value_str)) \<or>
            (operator = ''<='' \<and> (str_lt (the (row column)) value_str \<or> the (row column) = value_str)))"
    using assms(3) by (auto simp: str_chain_iff fun_eq_iff)
  finally show ?thesis .
qed

theorem apply_filter_string_ordering_witness:
  "sample_data \<noteq> [] \<and> parse_condition ''name>=p'' = Inr (''name'', ''>='', ''p'') \<and>
   py_float ''p'' = None \<and>
   list_all (\<lambda>row. row ''name'' \<noteq> None) sample_data \<and>
   apply_filter sample_data ''name>=p'' = Inr [redmi, poco]"
proof -
  have n: "sample_data \<noteq> []" by (simp add: sample_data_def)
  have p: "parse_condition ''name>=p'' = Inr (''name'', ''>='', ''p'')"
    by (simp add: parse_condition_def operators_def starts_with_def strip_def is_space_def)
  have v: "py_float ''p'' = None" by (simp add: py_float_eval)
  have o: "''>='' \<in> {''>'', ''<'', ''>='', ''<=''}" by simp
  have c: "list_all (\<lambda>row. row ''name'' \<noteq> None) sample_data"
    by (simp add: sample_data_def iphone_def galaxy_def redmi_def poco_def)
  then have h: "\<forall>row\<in>set sample_data. row ''name'' \<noteq> None" by (simp add: list_all_iff)
  have names: "iphone ''name'' = Some ''iphone 15 pro''" "galaxy ''name'' = Some ''galaxy s23 ultra''"
    "redmi ''name'' = Some ''redmi note 12''" "poco ''name'' = Some ''poco x5 pro''"
    by (simp_all add: iphone_def galaxy_def redmi_def poco_def)
  have "apply_filter sample_data ''name>=p'' = Inr [redmi, poco]"
    unfolding apply_filter_string_ordering [OF n p o v h]
    by (simp add: sample_data_def names)
  with n p v c show ?thesis by simp
qed

section \<open>Cells that are no numbers: claims\<close>

text \<open>
  Claim C8. When a cell of the target column is no number, the call fails at the first
  such cell, with no partial result and without skipping the row: \<open>apply_filter\<close>, when the
  comparison value is a number, fails with \<open>NonNumericCell\<close>, and \<open>apply_aggregation\<close>
  fails with \<open>NonNumericColumn\<close>. The dataset is written as the rows before the first bad
  cell, all with a number in the column, the row of that cell, and any rows after it.
\<close>

theorem non_numeric_cell_is_fatal:
  "(parse_condition condition_str = Inr (column, operator, value_str) \<and>
    py_float value_str \<noteq> None \<and>
    (\<forall>row\<in>set pre. \<exists>cell. row column = Some cell \<and> py_float cell \<noteq> None) \<and>
    bad column = Some bad_cell \<and> py_float bad_cell = None \<longrightarrow>
      apply_filter (pre @ bad # post) condition_str = Inl NonNumericCell) \<and>
   (parse_aggregation aggregation_str = Inr (func_name, agg_column) \<and>
    (\<forall>row\<in>set agg_pre. \<exists>cell. row agg_column = Some cell \<and> py_float cell \<noteq> None) \<and>
    agg_bad agg_column = Some agg_bad_cell \<and> py_float agg_bad_cell = None \<longrightarrow>
      apply_aggregation (agg_pre @ agg_bad # agg_post) aggregation_str = Inl NonNumericColumn)"
proof (intro conjI impI)
  assume a: "parse_condition condition_str = Inr (column, operator, value_str) \<and>
    py_float value_str \<noteq> None \<and>
    (\<forall>row\<in>set pre. \<exists>cell. row column = Some cell \<and> py_float cell \<noteq> None) \<and>
    bad column = Some bad_cell \<and> py_float bad_cell = None"
  then obtain x where x: "py_float value_str = Some x" by auto
  from a have pre: "\<forall>row\<in>set pre. \<exists>cell. row column = Some cell \<and> py_float cell \<noteq> None"
    by simp
  from a have bc: "bad column = Some bad_cell" and bn: "py_float bad_cell = None"
    and p: "parse_condition condition_str = Inr (column, operator, value_str)" by simp_all
  have h: "hd (pre @ bad # post) column \<noteq> None"
    by (rule hd_prefix_has_column
        [where pre = pre and column = column and bad = bad and cell = bad_cell, OF pre bc])
  have "apply_filter (pre @ bad # post) condition_str =
        filter_loop column operator (coerce_value value_str) (pre @ bad # post) []"
    by (rule apply_filter_hd [OF p _ h]) simp
  also have "\<dots> = filter_loop column operator (Num x) (bad # post)
        ([] @ filter (\<lambda>row. num_chain operator (cell_number column row) x) pre)"
    unfolding coerce_value_def x using filter_loop_Num_prefix [OF pre] by simp
  also have "\<dots> = Inl NonNumericCell" using bc bn by simp
  finally show "apply_filter (pre @ bad # post) condition_str = Inl NonNumericCell" .
next
  assume a: "parse_aggregation aggregation_str = Inr (func_name, agg_column) \<and>
    (\<forall>row\<in>set agg_pre. \<exists>cell. row agg_column = Some cell \<and> py_float cell \<noteq> None) \<and>
    agg_bad agg_column = Some agg_bad_cell \<and> py_float agg_bad_cell = None"
  then have pre: "\<forall>row\<in>set agg_pre. \<exists>cell. row agg_column = Some cell \<and> py_float cell \<noteq> None"
    by simp
  from a have bc: "agg_bad agg_column = Some agg_bad_cell"
    and bn: "py_float agg_bad_cell = None"
    and p: "parse_aggregation aggregation_str = Inr (func_name, agg_column)" by simp_all
  have h: "hd (agg_pre @ agg_bad # agg_post) agg_column \<noteq> None"
    by (rule hd_prefix_has_column
        [where pre = agg_pre and column = agg_column and bad = agg_bad and cell = agg_bad_cell,
         OF pre bc])
  have "collect_values agg_column (agg_pre @ agg_bad # agg_post) [] =
        collect_values agg_column (agg_bad # agg_post) ([] @ map (cell_number agg_column) agg_pre)"
    by (rule collect_values_prefix [OF pre])
  also have "\<dots> = Inl NonNumericColumn" using bc bn by simp
  finally have cv: "collect_values agg_column (agg_pre @ agg_bad # agg_post) [] =
      Inl NonNumericColumn" .
  show "apply_aggregation (agg_pre @ agg_bad # agg_post) aggregation_str = Inl NonNumericColumn"
    by (rule apply_aggregation_hd [OF p _ h cv]) simp
qed

theorem non_numeric_cell_is_fatal_witness:
  "parse_condition ''price>500'' = Inr (''price'', ''>'', ''500'') \<and>
   py_float ''500'' = Some (Finite 500) \<and>
   iphone ''price'' = Some ''999'' \<and> py_float ''999'' = Some (Finite 999) \<and>
   [''price'' \<mapsto> ''n/a''] ''price'' = Some ''n/a'' \<and> py_float ''n/a'' = None \<and>
   apply_filter ([iphone] @ [''price'' \<mapsto> ''n/a''] # [galaxy]) ''price>500'' = Inl NonNumericCell \<and>
   parse_aggregation ''avg=name'' = Inr (''avg'', ''name'') \<and>
   iphone ''name'' = Some ''iphone 15 pro'' \<and> py_float ''iphone 15 pro'' = None \<and>
   apply_aggregation sample_data ''avg=name'' = Inl NonNumericColumn"
proof -
  have p: "parse_condition ''price>500'' = Inr (''price'', ''>'', ''500'')"
    by (rule sample_parses)
  have v: "py_float ''500'' = Some (Finite 500)" "py_float ''999'' = Some (Finite 999)"
    by (rule sample_numbers)+
  have i: "iphone ''price'' = Some ''999''" by (rule sample_cells)
  have b: "[''price'' \<mapsto> ''n/a''] ''price'' = Some ''n/a''" by simp
  have nb: "py_float ''n/a'' = None" by (simp add: py_float_eval)
  have q: "parse_aggregation ''avg=name'' = Inr (''avg'', ''name'')"
    by (simp add: parse_aggregation_def starts_with_def strip_def is_space_def lower_def
        lower_char_def)
  have j: "iphone ''name'' = Some ''iphone 15 pro''" by (simp add: iphone_def)
  have nj: "py_float ''iphone 15 pro'' = None" by (simp add: py_float_eval)
  have pre: "\<forall>row\<in>set [iphone]. \<exists>cell. row ''price'' = Some cell \<and> py_float cell \<noteq> None"
    using i v by simp
  have s: "sample_data = [] @ iphone # [galaxy, redmi, poco]" by (simp add: sample_data_def)
  from non_numeric_cell_is_fatal
    [of "''price>500''" "''price''" "''>''" "''500''" "[iphone]" "[''price'' \<mapsto> ''n/a'']"
        "''n/a''" "[galaxy]" "''avg=name''" "''avg''" "''name''" "[]" iphone "''iphone 15 pro''"
        "[galaxy, redmi, poco]"]
    p v pre b nb q j nj
  have "apply_filter ([iphone] @ [''price'' \<mapsto> ''n/a''] # [galaxy]) ''price>500'' = Inl NonNumericCell \<and>
        apply_aggregation ([] @ iphone # [galaxy, redmi, poco]) ''avg=name'' = Inl NonNumericColumn"
    by simp
  with p v i b nb q j nj s show ?thesis by simp
qed

section \<open>The aggregation: claims\<close>




end
